theory Spec2Isabelle
  imports Main "HOL-Library.Sublist"
begin

section \<open>JavaScript string operations used by the routes\<close>

text \<open>
  \<^verbatim>\<open>s.includes(x)\<close>: \<open>x\<close> occurs in \<open>s\<close> as a contiguous substring. The empty
  string occurs in every string.
\<close>

fun includes_js :: "string \<Rightarrow> string \<Rightarrow> bool" where
  "includes_js [] x = (x = [])"
| "includes_js (c # cs) x = (prefix x (c # cs) \<or> includes_js cs x)"

text \<open>
  \<^verbatim>\<open>s.split(sep)\<close> for a non-empty separator: the tokens between the leftmost,
  non-overlapping occurrences of \<open>sep\<close>. The result is never empty.
\<close>

fun split_tokens :: "string \<Rightarrow> string \<Rightarrow> string list" where
  "split_tokens sep [] = [[]]"
| "split_tokens sep (c # cs) =
     (if sep \<noteq> [] \<and> prefix sep (c # cs)
      then [] # split_tokens sep (drop (length sep - 1) cs)
      else (case split_tokens sep cs of
              [] \<Rightarrow> [[c]]
            | t # ts \<Rightarrow> (c # t) # ts))"

text \<open>
  \<^verbatim>\<open>s.split(sep)\<close> in full: an empty separator cuts the string into its
  characters (and the empty string into no token at all).
\<close>

definition split_js :: "string \<Rightarrow> string \<Rightarrow> string list" where
  "split_js sep s = (if sep = [] then map (\<lambda>c. [c]) s else split_tokens sep s)"

text \<open>
  \<^verbatim>\<open>[domain] = action.split(actionDelimiter)\<close>: the first token, or
  \<^verbatim>\<open>undefined\<close> (\<open>None\<close>) when the array is empty.
\<close>

definition first_token :: "string \<Rightarrow> string \<Rightarrow> string option" where
  "first_token sep s = (case split_js sep s of [] \<Rightarrow> None | t # ts \<Rightarrow> Some t)"

section \<open>Data model\<close>

datatype SystemRoles = ADMIN | USER

text \<open>The part of the request the routes read: \<^verbatim>\<open>req.user.id\<close> and \<^verbatim>\<open>req.user.role\<close>.\<close>

record req =
  user_id :: string
  user_role :: SystemRoles

type_synonym ActionMetadata = "string \<rightharpoonup> string"

record Action =
  action_id :: string
  metadata :: ActionMetadata
  agent_id :: "string option"
  user :: string
  action_functions :: "string list"

record Agent =
  ident :: string
  author :: string
  actions :: "string list"
  tools :: "string list"

text \<open>A tool of the request body; only \<^verbatim>\<open>tool.function.name\<close> is read.\<close>

record FunctionTool =
  function_name :: string

record stores =
  actionDocs :: "Action list"
  agentDocs :: "Agent list"

datatype response =
  Message nat string
| ActionJson Action
| ActionsJson "Action list"

section \<open>External collaborators\<close>

text \<open>
  The constants and services the routes import from other packages, taken as parameters:
  \<^item> \<open>actionDelimiter\<close>, the separator of the encoded references;
  \<^item> \<open>domainParser\<close>, called as \<^verbatim>\<open>domainParser(req, domain, true)\<close> on
    \<^verbatim>\<open>metadata.domain\<close> (absent: \<open>None\<close>);
  \<^item> \<open>isActionDomainAllowed\<close>, the allow-list check;
  \<^item> \<open>encryptMetadata\<close> and \<open>removeNullishValues\<close> (the latter with its flag \<^verbatim>\<open>true\<close>);
  \<^item> \<open>regexTest p s\<close>, the store's test of an array element \<open>s\<close> against
    \<^verbatim>\<open>{ $regex: p, $options: 'i' }\<close>.
\<close>

record ext =
  actionDelimiter :: string
  domainParser :: "req \<Rightarrow> string option \<Rightarrow> string"
  isActionDomainAllowed :: "string option \<Rightarrow> bool"
  encryptMetadata :: "ActionMetadata \<Rightarrow> ActionMetadata"
  removeNullishValues :: "ActionMetadata \<Rightarrow> ActionMetadata"
  regexTest :: "string \<Rightarrow> string \<Rightarrow> bool"

section \<open>The record stores\<close>

text \<open>
  Modelled from the spec: the Action Store and the Agent Store (\<^verbatim>\<open>~/models/Action\<close>,
  \<^verbatim>\<open>~/models/Agent\<close>, section 6 of the specification). A collection is a list of
  documents; a lookup returns the first document that matches the filter, an update
  changes the first document that matches, a query returns every match.
\<close>

definition getActions :: "Action list \<Rightarrow> Action list" where
  "getActions docs = docs"

definition getAction :: "string \<Rightarrow> Action list \<Rightarrow> Action option" where
  "getAction aid docs = find (\<lambda>a. action_id a = aid) docs"

record actionUpdateData =
  u_metadata :: ActionMetadata
  u_agent_id :: "string option"
  u_user :: string
  u_functions :: "string list"

definition apply_update :: "actionUpdateData \<Rightarrow> Action \<Rightarrow> Action" where
  "apply_update d a =
     a\<lparr>metadata := u_metadata d,
       agent_id := (case u_agent_id d of None \<Rightarrow> agent_id a | Some g \<Rightarrow> Some g),
       user := u_user d,
       action_functions := u_functions d\<rparr>"

fun update_first :: "string \<Rightarrow> actionUpdateData \<Rightarrow> Action list \<Rightarrow> Action list" where
  "update_first aid d [] = []"
| "update_first aid d (a # as) =
     (if action_id a = aid then apply_update d a # as else a # update_first aid d as)"

text \<open>\<open>ActionStore.upsert\<close>: the updated (or newly inserted) action and the new collection.\<close>

definition updateAction :: "string \<Rightarrow> actionUpdateData \<Rightarrow> Action list \<Rightarrow> Action \<times> Action list" where
  "updateAction aid d docs =
     (case getAction aid docs of
        Some a \<Rightarrow> (apply_update d a, update_first aid d docs)
      | None \<Rightarrow>
          (let a = \<lparr>action_id = aid, metadata = u_metadata d, agent_id = u_agent_id d,
                    user = u_user d, action_functions = u_functions d\<rparr>
           in (a, docs @ [a])))"

fun remove_first :: "string \<Rightarrow> Action list \<Rightarrow> Action list" where
  "remove_first aid [] = []"
| "remove_first aid (a # as) = (if action_id a = aid then as else a # remove_first aid as)"

text \<open>\<open>ActionStore.delete\<close>: the deleted action, \<open>None\<close> if there is none.\<close>

definition deleteAction :: "string \<Rightarrow> Action list \<Rightarrow> Action option \<times> Action list" where
  "deleteAction aid docs =
     (case getAction aid docs of
        None \<Rightarrow> (None, docs)
      | Some a \<Rightarrow> (Some a, remove_first aid docs))"

text \<open>An agent filter: \<^verbatim>\<open>{ id }\<close> or \<^verbatim>\<open>{ id, author }\<close>.\<close>

record agentQuery =
  q_id :: string
  q_author :: "string option"

definition agent_matches :: "agentQuery \<Rightarrow> Agent \<Rightarrow> bool" where
  "agent_matches q g =
     (ident g = q_id q \<and> (case q_author q of None \<Rightarrow> True | Some u \<Rightarrow> author g = u))"

definition getAgent :: "agentQuery \<Rightarrow> Agent list \<Rightarrow> Agent option" where
  "getAgent q docs = find (agent_matches q) docs"

fun updateAgent :: "agentQuery \<Rightarrow> string list \<Rightarrow> string list \<Rightarrow> Agent list \<Rightarrow> Agent list" where
  "updateAgent q acts tls [] = []"
| "updateAgent q acts tls (g # gs) =
     (if agent_matches q g then g\<lparr>actions := acts, tools := tls\<rparr> # gs
      else g # updateAgent q acts tls gs)"

text \<open>
  \<^verbatim>\<open>getAgents({ actions: { $elemMatch: { $regex: action_id, $options: 'i' } } })\<close>.
\<close>

definition getAgents :: "(string \<Rightarrow> string \<Rightarrow> bool) \<Rightarrow> string \<Rightarrow> Agent list \<Rightarrow> Agent list" where
  "getAgents rx aid docs = filter (\<lambda>g. list_ex (rx aid) (actions g)) docs"

section \<open>The routes of \<^verbatim>\<open>api/server/routes/agents/actions.js\<close>\<close>

text \<open>
  Each route takes the request, its parameters and the stores, and returns the response
  with the stores it leaves. A response is the status with its message, or the JSON
  body. Of the exceptions that the \<^verbatim>\<open>catch\<close> blocks turn into status 500, the one
  the routes raise themselves is modelled (reading a property of \<^verbatim>\<open>null\<close> in the
  delete route); a store that throws and a request body without a \<^verbatim>\<open>functions\<close> array
  are not.
\<close>

definition isAdmin :: "req \<Rightarrow> bool" where
  "isAdmin r = (user_role r = ADMIN)"

text \<open>\<^verbatim>\<open>admin ? { id: agent_id } : { id: agent_id, author: req.user.id }\<close>\<close>

definition agentQuery_of :: "req \<Rightarrow> string \<Rightarrow> agentQuery" where
  "agentQuery_of r agent =
     (if isAdmin r then \<lparr>q_id = agent, q_author = None\<rparr>
      else \<lparr>q_id = agent, q_author = Some (user_id r)\<rparr>)"

text \<open>The template literals that build the two kinds of reference.\<close>

definition action_ref :: "string \<Rightarrow> string \<Rightarrow> string \<Rightarrow> string" where
  "action_ref delim domain aid = domain @ delim @ aid"

definition tool_ref :: "string \<Rightarrow> string \<Rightarrow> string \<Rightarrow> string" where
  "tool_ref delim fname domain = fname @ delim @ domain"

text \<open>
  The loop over \<^verbatim>\<open>sensitiveFields\<close>: a field is deleted from the metadata about to
  be returned when its value is truthy.
\<close>

definition sensitiveFields :: "string list" where
  "sensitiveFields = [''api_key'', ''oauth_client_id'', ''oauth_client_secret'']"

definition delete_if_truthy :: "ActionMetadata \<Rightarrow> string \<Rightarrow> ActionMetadata" where
  "delete_if_truthy m field =
     (case m field of
        None \<Rightarrow> m
      | Some v \<Rightarrow> if v \<noteq> [] then m(field := None) else m)"

definition strip_sensitive :: "ActionMetadata \<Rightarrow> ActionMetadata" where
  "strip_sensitive m = foldl delete_if_truthy m sensitiveFields"

subsection \<open>\<^verbatim>\<open>router.get('/')\<close>\<close>

definition get_actions :: "stores \<Rightarrow> response \<times> stores" where
  "get_actions S = (ActionsJson (getActions (actionDocs S)), S)"

subsection \<open>\<^verbatim>\<open>router.post('/')\<close>: add an action\<close>

text \<open>
  \<open>param_agent_id\<close> is \<^verbatim>\<open>req.params.agent_id\<close> and \<open>new_id\<close> the value \<^verbatim>\<open>nanoid()\<close>
  returns.
\<close>

definition post_action ::
  "ext \<Rightarrow> req \<Rightarrow> string option \<Rightarrow> string \<Rightarrow> FunctionTool list \<Rightarrow> ActionMetadata \<Rightarrow> stores
     \<Rightarrow> response \<times> stores" where
  "post_action E r param_agent_id new_id fns raw_metadata S =
     (if fns = [] then (Message 400 ''No functions provided'', S)
      else
        let functionNames = map function_name fns;
            md = encryptMetadata E (removeNullishValues E raw_metadata)
        in if \<not> isActionDomainAllowed E (md ''domain'')
           then (Message 400 ''Domain not allowed'', S)
           else
             let domain = domainParser E r (md ''domain'')
             in if domain = [] then (Message 400 ''No domain provided'', S)
                else
                  let actionUpdateData =
                        \<lparr>u_metadata = md, u_agent_id = param_agent_id,
                         u_user = user_id r, u_functions = functionNames\<rparr>;
                      (updatedAction, docs) = updateAction new_id actionUpdateData (actionDocs S)
                  in (ActionJson (updatedAction\<lparr>metadata := strip_sensitive (metadata updatedAction)\<rparr>),
                      S\<lparr>actionDocs := docs\<rparr>))"

subsection \<open>\<^verbatim>\<open>router.delete('/:action_id')\<close>: delete an action\<close>

definition delete_keep_action :: "string \<Rightarrow> string \<Rightarrow> bool" where
  "delete_keep_action aid action = (\<not> includes_js action aid)"

definition delete_keep_tool :: "string \<Rightarrow> string \<Rightarrow> string \<Rightarrow> bool" where
  "delete_keep_tool aid domain tool =
     (\<not> (tool \<noteq> [] \<and> (includes_js tool aid \<or> includes_js tool domain)))"

text \<open>The loop over the agents the query returned: one \<open>updateAgent\<close> each, by id.\<close>

fun delete_cascade :: "string \<Rightarrow> string \<Rightarrow> Agent list \<Rightarrow> Agent list \<Rightarrow> Agent list" where
  "delete_cascade aid domain [] docs = docs"
| "delete_cascade aid domain (agent # agents) docs =
     delete_cascade aid domain agents
       (updateAgent \<lparr>q_id = ident agent, q_author = None\<rparr>
          (filter (delete_keep_action aid) (actions agent))
          (filter (delete_keep_tool aid domain) (tools agent))
          docs)"

text \<open>
  When \<open>deleteAction\<close> returns \<^verbatim>\<open>null\<close>, reading \<^verbatim>\<open>deletedAction.metadata\<close> throws
  and the \<^verbatim>\<open>catch\<close> block answers with status 500.
\<close>

definition delete_action :: "ext \<Rightarrow> req \<Rightarrow> string \<Rightarrow> stores \<Rightarrow> response \<times> stores" where
  "delete_action E r aid S =
     (case deleteAction aid (actionDocs S) of
        (None, docs) \<Rightarrow>
          (Message 500 ''Trouble deleting the Agent Action'', S\<lparr>actionDocs := docs\<rparr>)
      | (Some deletedAction, docs) \<Rightarrow>
          let domain = domainParser E r (metadata deletedAction ''domain'');
              agents = getAgents (regexTest E) aid (agentDocs S)
          in (Message 200 ''Action deleted successfully'',
              S\<lparr>actionDocs := docs,
                agentDocs := delete_cascade aid domain agents (agentDocs S)\<rparr>))"

subsection \<open>\<^verbatim>\<open>router.put('/:action_id')\<close>: update an action\<close>

definition put_keep_tool :: "string \<Rightarrow> string option \<Rightarrow> string \<Rightarrow> bool" where
  "put_keep_tool aid oldDomain tool =
     (\<not> (tool \<noteq> [] \<and>
         ((case oldDomain of None \<Rightarrow> includes_js tool ''undefined'' | Some od \<Rightarrow> includes_js tool od)
          \<or> includes_js tool aid)))"

fun put_cascade ::
  "string \<Rightarrow> string \<Rightarrow> string option \<Rightarrow> string \<Rightarrow> FunctionTool list \<Rightarrow> Agent list \<Rightarrow> Agent list
     \<Rightarrow> Agent list" where
  "put_cascade delim aid oldDomain domain fns [] docs = docs"
| "put_cascade delim aid oldDomain domain fns (agent # agents) docs =
     put_cascade delim aid oldDomain domain fns agents
       (updateAgent \<lparr>q_id = ident agent, q_author = None\<rparr>
          (filter (\<lambda>action. \<not> includes_js action aid) (actions agent)
             @ [action_ref delim domain aid])
          (filter (put_keep_tool aid oldDomain) (tools agent)
             @ map (\<lambda>tool. tool_ref delim (function_name tool) domain) fns)
          docs)"

definition put_action ::
  "ext \<Rightarrow> req \<Rightarrow> string \<Rightarrow> FunctionTool list \<Rightarrow> ActionMetadata \<Rightarrow> stores \<Rightarrow> response \<times> stores" where
  "put_action E r aid fns raw_metadata S =
     (case getAction aid (actionDocs S) of
        None \<Rightarrow> (Message 404 ''Action not found'', S)
      | Some action \<Rightarrow>
          let oldDomain = metadata action ''domain''
          in if fns = [] then (Message 400 ''No functions provided'', S)
             else
               let md = encryptMetadata E (removeNullishValues E raw_metadata)
               in if \<not> isActionDomainAllowed E (md ''domain'')
                  then (Message 400 ''Domain not allowed'', S)
                  else
                    let domain = domainParser E r (md ''domain'')
                    in if domain = [] then (Message 400 ''No domain provided'', S)
                       else
                         let actionUpdateData =
                               \<lparr>u_metadata = md, u_agent_id = None,
                                u_user = user_id r, u_functions = map function_name fns\<rparr>;
                             (updatedAction, docs) =
                               updateAction aid actionUpdateData (actionDocs S);
                             agents = getAgents (regexTest E) aid (agentDocs S)
                         in (ActionJson
                               (updatedAction\<lparr>metadata := strip_sensitive (metadata updatedAction)\<rparr>),
                             S\<lparr>actionDocs := docs,
                               agentDocs :=
                                 put_cascade (actionDelimiter E) aid oldDomain domain fns agents
                                   (agentDocs S)\<rparr>))"

subsection \<open>\<^verbatim>\<open>router.post('/:agent_id/:action_id')\<close>: add an action to an agent\<close>

text \<open>
  \<^verbatim>\<open>!agentActions.find((a) => a.includes(action_id))\<close>: true when no element is
  found, and also when the element found is the empty string.
\<close>

definition not_exists_yet :: "string \<Rightarrow> string list \<Rightarrow> bool" where
  "not_exists_yet aid agentActions =
     (case find (\<lambda>a. includes_js a aid) agentActions of None \<Rightarrow> True | Some a \<Rightarrow> a = [])"

definition bind_keep_tool :: "string \<Rightarrow> string \<Rightarrow> string \<Rightarrow> bool" where
  "bind_keep_tool aid domain tool =
     (\<not> (tool \<noteq> [] \<and> (includes_js tool domain \<or> includes_js tool aid)))"

definition post_agent_action ::
  "ext \<Rightarrow> req \<Rightarrow> string \<Rightarrow> string \<Rightarrow> stores \<Rightarrow> response \<times> stores" where
  "post_agent_action E r agent aid S =
     (let agentQuery = agentQuery_of r agent
      in case getAgent agentQuery (agentDocs S) of
           None \<Rightarrow> (Message 404 ''Agent not found for adding action'', S)
         | Some ag \<Rightarrow>
             (case getAction aid (actionDocs S) of
                None \<Rightarrow> (Message 404 ''Action not found for adding to agent'', S)
              | Some action \<Rightarrow>
                  let domain = domainParser E r (metadata action ''domain'');
                      agentActions = actions ag
                  in if not_exists_yet aid agentActions
                     then
                       (Message 200 ''Action added successfully'',
                        S\<lparr>agentDocs :=
                            updateAgent agentQuery
                              (agentActions @ [action_ref (actionDelimiter E) domain aid])
                              (filter (bind_keep_tool aid domain) (tools ag)
                                 @ map (\<lambda>f. tool_ref (actionDelimiter E) f domain)
                                     (action_functions action))
                              (agentDocs S)\<rparr>)
                     else (Message 200 ''Action added successfully'', S)))"

subsection \<open>\<^verbatim>\<open>router.delete('/:agent_id/:action_id')\<close>: remove an action from an agent\<close>

text \<open>
  The \<^verbatim>\<open>filter\<close> whose callback also assigns \<^verbatim>\<open>domain\<close>: the result is the last
  value assigned (the first token of the last matching entry) and the entries kept.
\<close>

fun unbind_scan ::
  "string \<Rightarrow> string \<Rightarrow> string option \<Rightarrow> string list \<Rightarrow> string option \<times> string list" where
  "unbind_scan delim aid domain [] = (domain, [])"
| "unbind_scan delim aid domain (action # rest) =
     (if includes_js action aid
      then unbind_scan delim aid (first_token delim action) rest
      else (case unbind_scan delim aid domain rest of
              (d, kept) \<Rightarrow> (d, action # kept)))"

definition unbind_keep_tool :: "string \<Rightarrow> string \<Rightarrow> bool" where
  "unbind_keep_tool domain tool = (\<not> (tool \<noteq> [] \<and> includes_js tool domain))"

definition delete_agent_action ::
  "ext \<Rightarrow> req \<Rightarrow> string \<Rightarrow> string \<Rightarrow> stores \<Rightarrow> response \<times> stores" where
  "delete_agent_action E r agent aid S =
     (let agentQuery = agentQuery_of r agent
      in case getAgent agentQuery (agentDocs S) of
           None \<Rightarrow> (Message 404 ''Agent not found for deleting action'', S)
         | Some ag \<Rightarrow>
             (case unbind_scan (actionDelimiter E) aid (Some []) (actions ag) of
                (domain, updatedActions) \<Rightarrow>
                  (case domain of
                     None \<Rightarrow> (Message 400 ''No domain provided'', S)
                   | Some d \<Rightarrow>
                       if d = [] then (Message 400 ''No domain provided'', S)
                       else
                         (Message 200 ''Action deleted for agent successfully'',
                          S\<lparr>agentDocs :=
                              updateAgent agentQuery updatedActions
                                (filter (unbind_keep_tool d) (tools ag))
                                (agentDocs S)\<rparr>))))"

section \<open>Operations as data, and the reference invariant\<close>

text \<open>
  The four operations that write agents, as values, so that a sequence of requests can be
  run: each constructor carries the request and the route parameters.
\<close>

datatype operation =
  Bind req string string
| Unbind req string string
| Update req string "FunctionTool list" ActionMetadata
| Delete req string

fun apply_operation :: "ext \<Rightarrow> operation \<Rightarrow> stores \<Rightarrow> stores" where
  "apply_operation E (Bind r agent aid) S = snd (post_agent_action E r agent aid S)"
| "apply_operation E (Unbind r agent aid) S = snd (delete_agent_action E r agent aid S)"
| "apply_operation E (Update r aid fns raw) S = snd (put_action E r aid fns raw S)"
| "apply_operation E (Delete r aid) S = snd (delete_action E r aid S)"

fun run_operations :: "ext \<Rightarrow> operation list \<Rightarrow> stores \<Rightarrow> stores" where
  "run_operations E [] S = S"
| "run_operations E (op # ops) S = run_operations E ops (apply_operation E op S)"

text \<open>
  Invariant A, with the containment test the routes use: for each of the action ids
  \<open>ids\<close>, at most one entry of an agent's \<open>actions\<close> contains it.
\<close>

definition refs_to :: "string \<Rightarrow> string list \<Rightarrow> string list" where
  "refs_to aid acts = filter (\<lambda>a. includes_js a aid) acts"

definition at_most_one_ref :: "string \<Rightarrow> string list \<Rightarrow> bool" where
  "at_most_one_ref aid acts = (length (refs_to aid acts) \<le> 1)"

definition refs_ok :: "string list \<Rightarrow> string list \<Rightarrow> bool" where
  "refs_ok ids acts = list_all (\<lambda>i. at_most_one_ref i acts) ids"

definition invariant_A :: "string list \<Rightarrow> Agent list \<Rightarrow> bool" where
  "invariant_A ids docs = list_all (\<lambda>g. refs_ok ids (actions g)) docs"

text \<open>
  The reference an operation writes into the \<open>actions\<close> of an agent, with the action id
  it is written for; \<open>None\<close> when the operation writes no reference. A Bind writes one
  when the agent and the action are found and no entry exists yet; an Update writes one
  when the action is found, the request passes the three checks and the query selects
  an agent. Unbind and Delete only remove entries.
\<close>

fun written_ref :: "ext \<Rightarrow> operation \<Rightarrow> stores \<Rightarrow> (string \<times> string) option" where
  "written_ref E (Bind r agent aid) S =
     (case getAgent (agentQuery_of r agent) (agentDocs S) of
        None \<Rightarrow> None
      | Some ag \<Rightarrow>
          (case getAction aid (actionDocs S) of
             None \<Rightarrow> None
           | Some action \<Rightarrow>
               if not_exists_yet aid (actions ag)
               then Some (aid, action_ref (actionDelimiter E)
                                 (domainParser E r (metadata action ''domain'')) aid)
               else None))"
| "written_ref E (Update r aid fns raw) S =
     (case getAction aid (actionDocs S) of
        None \<Rightarrow> None
      | Some action \<Rightarrow>
          if fns = [] then None
          else if \<not> isActionDomainAllowed E (encryptMetadata E (removeNullishValues E raw) ''domain'')
          then None
          else if domainParser E r (encryptMetadata E (removeNullishValues E raw) ''domain'') = []
          then None
          else if getAgents (regexTest E) aid (agentDocs S) = [] then None
          else Some (aid, action_ref (actionDelimiter E)
                            (domainParser E r
                               (encryptMetadata E (removeNullishValues E raw) ''domain''))
                            aid))"
| "written_ref E (Unbind r agent aid) S = None"
| "written_ref E (Delete r aid) S = None"

text \<open>A written reference collides when it contains one of the ids other than its own.\<close>

definition ref_collides :: "string list \<Rightarrow> string \<Rightarrow> string \<Rightarrow> bool" where
  "ref_collides ids aid ref = list_ex (\<lambda>i. i \<noteq> aid \<and> includes_js ref i) ids"

definition no_collision :: "string list \<Rightarrow> ext \<Rightarrow> operation \<Rightarrow> stores \<Rightarrow> bool" where
  "no_collision ids E op S =
     (case written_ref E op S of
        None \<Rightarrow> True
      | Some (aid, ref) \<Rightarrow> \<not> ref_collides ids aid ref)"

fun collision_free :: "string list \<Rightarrow> ext \<Rightarrow> operation list \<Rightarrow> stores \<Rightarrow> bool" where
  "collision_free ids E [] S = True"
| "collision_free ids E (op # ops) S =
     (no_collision ids E op S \<and> collision_free ids E ops (apply_operation E op S))"

text \<open>
  Modelled from the spec: the domain component of a tool reference
  \<^verbatim>\<open>functionName<DELIM>domain\<close> (section 3 of the specification). The routes never
  parse a tool reference; this reading is only used to state what the specification says
  about them.
\<close>

definition tool_domain :: "string \<Rightarrow> string \<Rightarrow> string option" where
  "tool_domain delim tool = (case split_js delim tool of [f, d] \<Rightarrow> Some d | _ \<Rightarrow> None)"

section \<open>An example environment and example stores\<close>

text \<open>
  Concrete values at which the routes are evaluated below. The example domain parser
  replaces every dot by three dashes (and answers the empty string for an absent domain);
  the example regular-expression test is plain containment; the example of
  \<^verbatim>\<open>removeNullishValues(obj, true)\<close> drops the entries that hold the empty string (a
  metadata value of the model is never null), and the example encryption leaves the
  metadata as it is.
\<close>

definition remove_empty_strings :: "ActionMetadata \<Rightarrow> ActionMetadata" where
  "remove_empty_strings m =
     (\<lambda>k. case m k of None \<Rightarrow> None | Some v \<Rightarrow> if v = [] then None else Some v)"

definition dots_to_dashes :: "string \<Rightarrow> string" where
  "dots_to_dashes s = concat (map (\<lambda>c. if c = CHR ''.'' then ''---'' else [c]) s)"

definition example_ext :: ext where
  "example_ext =
     \<lparr>actionDelimiter = ''_action_'',
      domainParser = (\<lambda>r d. case d of None \<Rightarrow> [] | Some s \<Rightarrow> dots_to_dashes s),
      isActionDomainAllowed = (\<lambda>d. True),
      encryptMetadata = (\<lambda>m. m),
      removeNullishValues = remove_empty_strings,
      regexTest = (\<lambda>p s. includes_js s p)\<rparr>"

definition owner_req :: req where
  "owner_req = \<lparr>user_id = ''u1'', user_role = USER\<rparr>"

definition other_req :: req where
  "other_req = \<lparr>user_id = ''u2'', user_role = USER\<rparr>"

definition admin_req :: req where
  "admin_req = \<lparr>user_id = ''root'', user_role = ADMIN\<rparr>"

definition lookup_action :: Action where
  "lookup_action =
     \<lparr>action_id = ''ID'', metadata = [''domain'' \<mapsto> ''a.io''], agent_id = None,
      user = ''u1'', action_functions = [''lookup'']\<rparr>"

definition no_domain_action :: Action where
  "no_domain_action =
     \<lparr>action_id = ''ND'', metadata = Map.empty, agent_id = None,
      user = ''u1'', action_functions = [''ping'']\<rparr>"

definition fresh_agent :: Agent where
  "fresh_agent = \<lparr>ident = ''A1'', author = ''u1'', actions = [], tools = []\<rparr>"

definition example_stores :: stores where
  "example_stores = \<lparr>actionDocs = [lookup_action, no_domain_action], agentDocs = [fresh_agent]\<rparr>"

text \<open>A second action, \<open>K7\<close>, beside \<open>ID\<close>, and an action whose id contains \<open>ND\<close>.\<close>

definition mail_action :: Action where
  "mail_action =
     \<lparr>action_id = ''K7'', metadata = [''domain'' \<mapsto> ''c.io''], agent_id = None,
      user = ''u1'', action_functions = [''send'']\<rparr>"

definition two_action_stores :: stores where
  "two_action_stores = \<lparr>actionDocs = [lookup_action, mail_action], agentDocs = [fresh_agent]\<rparr>"

definition ndx_action :: Action where
  "ndx_action =
     \<lparr>action_id = ''NDX'', metadata = [''domain'' \<mapsto> ''a.io''], agent_id = None,
      user = ''u1'', action_functions = [''lookup'']\<rparr>"

definition ndx_stores :: stores where
  "ndx_stores =
     \<lparr>actionDocs = [lookup_action, no_domain_action, ndx_action], agentDocs = [fresh_agent]\<rparr>"

definition lookup_tool :: FunctionTool where
  "lookup_tool = \<lparr>function_name = ''lookup''\<rparr>"

text \<open>An agent bound to two actions whose domains are \<open>api\<close> and \<open>myapi\<close>.\<close>

definition two_domain_agent :: Agent where
  "two_domain_agent =
     \<lparr>ident = ''A1'', author = ''u1'',
      actions = [''api_action_ID1'', ''myapi_action_ID2''],
      tools = [''lookup_action_api'', ''search_action_myapi'']\<rparr>"

definition two_domain_stores :: stores where
  "two_domain_stores = \<lparr>actionDocs = [], agentDocs = [two_domain_agent]\<rparr>"

text \<open>
  Two actions with the ids \<open>xyz\<close> and \<open>n_x\<close>, of equal length and both served from the domain
  \<open>d\<close>; the agent is bound to \<open>n_x\<close>.
\<close>

definition xyz_action :: Action where
  "xyz_action =
     \<lparr>action_id = ''xyz'', metadata = [''domain'' \<mapsto> ''d''], agent_id = None,
      user = ''u1'', action_functions = [''f'']\<rparr>"

definition n_x_action :: Action where
  "n_x_action =
     \<lparr>action_id = ''n_x'', metadata = [''domain'' \<mapsto> ''d''], agent_id = None,
      user = ''u1'', action_functions = [''g'']\<rparr>"

definition n_x_agent :: Agent where
  "n_x_agent =
     \<lparr>ident = ''A1'', author = ''u1'', actions = [''d_action_n_x''], tools = [''g_action_d'']\<rparr>"

definition collision_stores :: stores where
  "collision_stores = \<lparr>actionDocs = [n_x_action, xyz_action], agentDocs = [n_x_agent]\<rparr>"

lemmas example_defs =
  example_ext_def dots_to_dashes_def remove_empty_strings_def owner_req_def other_req_def admin_req_def
  lookup_action_def no_domain_action_def fresh_agent_def example_stores_def lookup_tool_def
  mail_action_def two_action_stores_def ndx_action_def ndx_stores_def
  two_domain_agent_def two_domain_stores_def xyz_action_def n_x_action_def n_x_agent_def
  collision_stores_def

lemmas route_defs =
  post_agent_action_def delete_agent_action_def put_action_def post_action_def
  delete_action_def Let_def getAgent_def getAction_def getAgents_def agentQuery_of_def
  isAdmin_def agent_matches_def not_exists_yet_def action_ref_def tool_ref_def
  bind_keep_tool_def unbind_keep_tool_def put_keep_tool_def delete_keep_tool_def
  delete_keep_action_def updateAction_def deleteAction_def apply_update_def
  first_token_def split_js_def

section \<open>Facts about the string operations\<close>

lemma includes_js_iff: "includes_js s x \<longleftrightarrow> (\<exists>ps ss. s = ps @ x @ ss)"
proof (induction s)
  case Nil
  then show ?case by auto
next
  case (Cons c cs)
  show ?case
  proof
    assume "includes_js (c # cs) x"
    then consider "prefix x (c # cs)" | "includes_js cs x" by auto
    then show "\<exists>ps ss. c # cs = ps @ x @ ss"
    proof cases
      case 1
      then obtain ss where "c # cs = x @ ss" by (auto simp: prefix_def)
      then have "c # cs = [] @ x @ ss" by simp
      then show ?thesis by blast
    next
      case 2
      with Cons.IH obtain ps ss where "cs = ps @ x @ ss" by blast
      then have "c # cs = (c # ps) @ x @ ss" by simp
      then show ?thesis by blast
    qed
  next
    assume "\<exists>ps ss. c # cs = ps @ x @ ss"
    then obtain ps ss where e: "c # cs = ps @ x @ ss" by blast
    show "includes_js (c # cs) x"
    proof (cases ps)
      case Nil
      with e have "prefix x (c # cs)" by (simp add: prefix_def)
      then show ?thesis by simp
    next
      case (Cons p ps')
      with e have "cs = ps' @ x @ ss" by simp
      with Cons.IH have "includes_js cs x" by blast
      then show ?thesis by simp
    qed
  qed
qed

lemma includes_js_action_ref: "includes_js (action_ref delim domain aid) aid"
  unfolding includes_js_iff action_ref_def
  by (rule exI [of _ "domain @ delim"], rule exI [of _ "[]"]) simp

lemma split_tokens_no_sep:
  "\<not> includes_js a sep \<Longrightarrow> split_tokens sep a = [a]"
  by (induction a) auto

lemma prefix_into_first:
  assumes "prefix sep (x @ sep @ a)" and "x \<noteq> []"
  shows "prefix sep (x @ butlast sep)"
proof (cases "sep = []")
  case True
  then show ?thesis by simp
next
  case False
  then have "x @ sep @ a = (x @ butlast sep) @ (last sep # a)" by simp
  moreover have "length sep \<le> length (x @ butlast sep)"
    using assms(2) False by (cases x) simp_all
  ultimately show ?thesis
    using assms(1) by (metis prefix_length_prefix prefixI)
qed

lemma split_tokens_action_ref:
  assumes "sep \<noteq> []" and "\<not> includes_js (d @ butlast sep) sep" and "\<not> includes_js a sep"
  shows "split_tokens sep (d @ sep @ a) = [d, a]"
  using assms
proof (induction d)
  case Nil
  then obtain c cs where sep: "sep = c # cs" by (cases sep) auto
  with Nil show ?case by (simp add: split_tokens_no_sep)
next
  case (Cons c d)
  have "\<not> prefix sep ((c # d) @ sep @ a)"
    using Cons.prems(2) prefix_into_first [of sep "c # d" a] by auto
  moreover have "\<not> includes_js (d @ butlast sep) sep"
    using Cons.prems(2) by simp
  ultimately show ?case
    using Cons.IH Cons.prems by simp
qed


section \<open>Facts about the scan of \<open>actions\<close> and the stores\<close>

lemma unbind_scan_no_match:
  "\<not> list_ex (\<lambda>a. includes_js a aid) acts \<Longrightarrow> unbind_scan delim aid d acts = (d, acts)"
  by (induction acts) auto

lemma unbind_scan_kept:
  "snd (unbind_scan delim aid d acts) = filter (\<lambda>a. \<not> includes_js a aid) acts"
  by (induction acts arbitrary: d) (simp_all add: case_prod_beta)

lemma unbind_scan_domain:
  "fst (unbind_scan delim aid d0 acts) =
     (if filter (\<lambda>a. includes_js a aid) acts = [] then d0
      else first_token delim (last (filter (\<lambda>a. includes_js a aid) acts)))"
  by (induction acts arbitrary: d0) (simp_all add: case_prod_beta)


lemma not_exists_yet_iff:
  "aid \<noteq> [] \<Longrightarrow> not_exists_yet aid acts \<longleftrightarrow> \<not> list_ex (\<lambda>a. includes_js a aid) acts"
proof (induction acts)
  case Nil
  then show ?case by (simp add: not_exists_yet_def)
next
  case (Cons a acts)
  then show ?case by (cases a) (auto simp: not_exists_yet_def)
qed

lemma not_exists_yet_after_push:
  "aid \<noteq> [] \<Longrightarrow> \<not> not_exists_yet aid (acts @ [action_ref delim domain aid])"
  by (simp add: not_exists_yet_iff includes_js_action_ref)

lemma find_agent_None:
  "\<forall>g\<in>set docs. ident g = agent \<longrightarrow> author g \<noteq> u \<Longrightarrow>
   find (agent_matches \<lparr>q_id = agent, q_author = Some u\<rparr>) docs = None"
  by (induction docs) (auto simp: agent_matches_def)

lemma agent_matches_id_only:
  "agent_matches \<lparr>q_id = a, q_author = None\<rparr> = (\<lambda>g. ident g = a)"
  by (rule ext) (simp add: agent_matches_def)

lemma getAgent_updateAgent:
  "getAgent q docs = Some g \<Longrightarrow>
   getAgent q (updateAgent q acts tls docs) = Some (g\<lparr>actions := acts, tools := tls\<rparr>)"
  by (induction docs) (auto simp: getAgent_def agent_matches_def split: option.splits)

lemma getAgent_member: "getAgent q docs = Some g \<Longrightarrow> g \<in> set docs"
  by (auto simp: getAgent_def find_Some_iff)

lemma getAgents_member: "g \<in> set (getAgents rx aid docs) \<Longrightarrow> g \<in> set docs"
  by (simp add: getAgents_def)


lemma delete_action_of_absent:
  "getAction aid (actionDocs S) = None \<Longrightarrow>
   delete_action E r aid S = (Message 500 ''Trouble deleting the Agent Action'', S)"
  by (simp add: delete_action_def deleteAction_def)

section \<open>Facts about the sanitizing loop\<close>

lemma delete_if_truthy_other:
  "f \<noteq> g \<Longrightarrow> delete_if_truthy m g f = m f"
  by (simp add: delete_if_truthy_def split: option.splits)

lemma delete_if_truthy_same:
  "delete_if_truthy m f f = None \<or> delete_if_truthy m f f = Some []"
  by (simp add: delete_if_truthy_def split: option.splits)

lemma delete_if_truthy_keeps_falsy:
  "m f = None \<or> m f = Some [] \<Longrightarrow> delete_if_truthy m g f = None \<or> delete_if_truthy m g f = Some []"
  by (auto simp: delete_if_truthy_def split: option.splits)

lemma foldl_delete_keeps_falsy:
  "m f = None \<or> m f = Some [] \<Longrightarrow>
   foldl delete_if_truthy m fs f = None \<or> foldl delete_if_truthy m fs f = Some []"
proof (induction fs arbitrary: m)
  case Nil
  then show ?case by simp
next
  case (Cons g fs)
  have "delete_if_truthy m g f = None \<or> delete_if_truthy m g f = Some []"
    using Cons.prems by (rule delete_if_truthy_keeps_falsy)
  then show ?case using Cons.IH by simp
qed

lemma foldl_delete_member:
  "f \<in> set fs \<Longrightarrow>
   foldl delete_if_truthy m fs f = None \<or> foldl delete_if_truthy m fs f = Some []"
proof (induction fs arbitrary: m)
  case Nil
  then show ?case by simp
next
  case (Cons g fs)
  show ?case
  proof (cases "f = g")
    case True
    have "delete_if_truthy m g f = None \<or> delete_if_truthy m g f = Some []"
      using True delete_if_truthy_same [of m g] by simp
    then show ?thesis using foldl_delete_keeps_falsy by simp
  next
    case False
    with Cons.prems have "f \<in> set fs" by simp
    then show ?thesis using Cons.IH by simp
  qed
qed

lemma strip_sensitive_secret:
  "f \<in> set sensitiveFields \<Longrightarrow> strip_sensitive m f = None \<or> strip_sensitive m f = Some []"
  unfolding strip_sensitive_def by (rule foldl_delete_member)

lemma strip_sensitive_other:
  "f \<notin> set sensitiveFields \<Longrightarrow> strip_sensitive m f = m f"
  unfolding strip_sensitive_def sensitiveFields_def
  by (simp add: delete_if_truthy_other)

lemma foldl_delete_Some:
  "foldl delete_if_truthy m fs f = Some v \<Longrightarrow> m f = Some v"
proof (induction fs arbitrary: m)
  case Nil
  then show ?case by simp
next
  case (Cons g fs)
  then have "delete_if_truthy m g f = Some v" by simp
  then show ?case
    by (auto simp: delete_if_truthy_def split: option.splits if_splits)
qed

lemma strip_sensitive_removes:
  assumes "f \<in> set sensitiveFields" and "m f \<noteq> Some []"
  shows "strip_sensitive m f = None"
proof (rule ccontr)
  assume "strip_sensitive m f \<noteq> None"
  with strip_sensitive_secret [OF assms(1), of m] have e: "strip_sensitive m f = Some []"
    by blast
  then have "m f = Some []"
    unfolding strip_sensitive_def by (rule foldl_delete_Some)
  with assms(2) show False by simp
qed

lemma updateAction_metadata:
  "metadata (fst (updateAction aid d docs)) = u_metadata d"
  by (simp add: updateAction_def apply_update_def Let_def split: option.splits)

lemma post_action_json:
  assumes "post_action E r p nid fns raw S = (ActionJson a, S1)"
  shows "metadata a = strip_sensitive (encryptMetadata E (removeNullishValues E raw))"
proof -
  let ?d = "\<lparr>u_metadata = encryptMetadata E (removeNullishValues E raw), u_agent_id = p,
             u_user = user_id r, u_functions = map function_name fns\<rparr>"
  from assms have "metadata a = strip_sensitive (metadata (fst (updateAction nid ?d (actionDocs S))))"
    by (auto simp: post_action_def Let_def split: if_splits prod.splits)
  then show ?thesis by (simp add: updateAction_metadata)
qed

lemma put_action_json:
  assumes "put_action E r aid fns raw S = (ActionJson a, S1)"
  shows "metadata a = strip_sensitive (encryptMetadata E (removeNullishValues E raw))"
proof -
  let ?d = "\<lparr>u_metadata = encryptMetadata E (removeNullishValues E raw), u_agent_id = None,
             u_user = user_id r, u_functions = map function_name fns\<rparr>"
  from assms have "metadata a = strip_sensitive (metadata (fst (updateAction aid ?d (actionDocs S))))"
    by (auto simp: put_action_def Let_def split: if_splits option.splits prod.splits)
  then show ?thesis by (simp add: updateAction_metadata)
qed

section \<open>Facts about the reference invariant\<close>

lemma at_most_one_filter:
  "at_most_one_ref i acts \<Longrightarrow> at_most_one_ref i (filter p acts)"
proof -
  have "filter (\<lambda>a. includes_js a i) (filter p acts) = filter p (filter (\<lambda>a. includes_js a i) acts)"
    by (simp add: conj_commute)
  then have "length (refs_to i (filter p acts)) \<le> length (refs_to i acts)"
    by (simp add: refs_to_def del: filter_filter)
  then show "at_most_one_ref i acts \<Longrightarrow> at_most_one_ref i (filter p acts)"
    by (simp add: at_most_one_ref_def)
qed

lemma refs_ok_filter: "refs_ok ids acts \<Longrightarrow> refs_ok ids (filter p acts)"
  by (simp add: refs_ok_def list_all_iff at_most_one_filter)

lemma at_most_one_snoc_other:
  "\<not> includes_js ref i \<Longrightarrow> at_most_one_ref i (acts @ [ref]) = at_most_one_ref i acts"
  by (simp add: at_most_one_ref_def refs_to_def)

lemma at_most_one_replaced:
  "at_most_one_ref aid (filter (\<lambda>a. \<not> includes_js a aid) acts @ [ref])"
  by (simp add: at_most_one_ref_def refs_to_def)

lemma at_most_one_pushed:
  "aid \<noteq> [] \<Longrightarrow> not_exists_yet aid acts \<Longrightarrow> at_most_one_ref aid (acts @ [ref])"
  by (simp add: at_most_one_ref_def refs_to_def not_exists_yet_iff list_ex_iff
      filter_empty_conv [THEN iffD2])

lemma refs_ok_replaced:
  assumes "refs_ok ids acts" and "\<not> ref_collides ids aid ref"
  shows "refs_ok ids (filter (\<lambda>a. \<not> includes_js a aid) acts @ [ref])"
  unfolding refs_ok_def list_all_iff
proof
  fix i assume i: "i \<in> set ids"
  show "at_most_one_ref i (filter (\<lambda>a. \<not> includes_js a aid) acts @ [ref])"
  proof (cases "i = aid")
    case True
    then show ?thesis by (simp add: at_most_one_replaced)
  next
    case False
    with i assms(2) have "\<not> includes_js ref i"
      by (auto simp: ref_collides_def list_ex_iff)
    moreover have "at_most_one_ref i (filter (\<lambda>a. \<not> includes_js a aid) acts)"
      using assms(1) i by (simp add: refs_ok_def list_all_iff at_most_one_filter)
    ultimately show ?thesis by (simp add: at_most_one_snoc_other)
  qed
qed

lemma refs_ok_pushed:
  assumes "refs_ok ids acts" and "\<not> ref_collides ids aid ref"
    and "[] \<notin> set ids" and "not_exists_yet aid acts"
  shows "refs_ok ids (acts @ [ref])"
  unfolding refs_ok_def list_all_iff
proof
  fix i assume i: "i \<in> set ids"
  show "at_most_one_ref i (acts @ [ref])"
  proof (cases "i = aid")
    case True
    with i assms(3) have "aid \<noteq> []" by auto
    then show ?thesis using assms(4) True by (simp add: at_most_one_pushed)
  next
    case False
    with i assms(2) have "\<not> includes_js ref i"
      by (auto simp: ref_collides_def list_ex_iff)
    moreover have "at_most_one_ref i acts"
      using assms(1) i by (simp add: refs_ok_def list_all_iff)
    ultimately show ?thesis by (simp add: at_most_one_snoc_other)
  qed
qed

lemma updateAgent_invariant:
  "invariant_A ids docs \<Longrightarrow> refs_ok ids acts \<Longrightarrow> invariant_A ids (updateAgent q acts tls docs)"
  by (induction docs) (simp_all add: invariant_A_def)

lemma invariant_member: "invariant_A ids docs \<Longrightarrow> g \<in> set docs \<Longrightarrow> refs_ok ids (actions g)"
  by (simp add: invariant_A_def list_all_iff)

lemma delete_cascade_invariant:
  "invariant_A ids docs \<Longrightarrow> \<forall>g\<in>set agents. refs_ok ids (actions g) \<Longrightarrow>
   invariant_A ids (delete_cascade aid domain agents docs)"
  by (induction agents arbitrary: docs)
    (simp_all add: updateAgent_invariant refs_ok_filter)

lemma put_cascade_invariant:
  "invariant_A ids docs \<Longrightarrow> \<forall>g\<in>set agents. refs_ok ids (actions g) \<Longrightarrow>
   \<not> ref_collides ids aid (action_ref delim domain aid) \<Longrightarrow>
   invariant_A ids (put_cascade delim aid oldDomain domain fns agents docs)"
  by (induction agents arbitrary: docs) (simp_all add: updateAgent_invariant refs_ok_replaced)

lemma bind_invariant:
  assumes "invariant_A ids (agentDocs S)" and "[] \<notin> set ids"
    and "no_collision ids E (Bind r agent aid) S"
  shows "invariant_A ids (agentDocs (snd (post_agent_action E r agent aid S)))"
proof (cases "getAgent (agentQuery_of r agent) (agentDocs S)")
  case None
  then show ?thesis using assms(1) by (simp add: post_agent_action_def Let_def)
next
  case (Some ag)
  note ag = this
  show ?thesis
  proof (cases "getAction aid (actionDocs S)")
    case None
    then show ?thesis using assms(1) ag by (simp add: post_agent_action_def Let_def)
  next
    case (Some action)
    let ?ref = "action_ref (actionDelimiter E) (domainParser E r (metadata action ''domain'')) aid"
    show ?thesis
    proof (cases "not_exists_yet aid (actions ag)")
      case False
      then show ?thesis using assms(1) ag Some by (simp add: post_agent_action_def Let_def)
    next
      case True
      have nc: "\<not> ref_collides ids aid ?ref"
        using assms(3) ag Some True by (simp add: no_collision_def)
      have "refs_ok ids (actions ag)"
        using assms(1) ag by (blast intro: invariant_member getAgent_member)
      then have "refs_ok ids (actions ag @ [?ref])"
        using nc assms(2) True by (rule refs_ok_pushed)
      then show ?thesis
        using assms(1) ag Some True
        by (simp add: post_agent_action_def Let_def updateAgent_invariant)
    qed
  qed
qed

lemma unbind_invariant:
  assumes "invariant_A ids (agentDocs S)"
  shows "invariant_A ids (agentDocs (snd (delete_agent_action E r agent aid S)))"
proof (cases "getAgent (agentQuery_of r agent) (agentDocs S)")
  case None
  then show ?thesis using assms by (simp add: delete_agent_action_def Let_def)
next
  case (Some ag)
  obtain dom kept where scan: "unbind_scan (actionDelimiter E) aid (Some []) (actions ag) = (dom, kept)"
    by (cases "unbind_scan (actionDelimiter E) aid (Some []) (actions ag)")
  have kept: "kept = filter (\<lambda>a. \<not> includes_js a aid) (actions ag)"
    using unbind_scan_kept [of "actionDelimiter E" aid "Some []" "actions ag"] scan by simp
  have "refs_ok ids (actions ag)"
    using assms Some by (blast intro: invariant_member getAgent_member)
  then have "refs_ok ids kept"
    unfolding kept by (rule refs_ok_filter)
  then show ?thesis
    using assms Some scan
    by (simp add: delete_agent_action_def Let_def updateAgent_invariant split: option.splits)
qed

lemma update_invariant:
  assumes "invariant_A ids (agentDocs S)"
    and "no_collision ids E (Update r aid fns raw) S"
  shows "invariant_A ids (agentDocs (snd (put_action E r aid fns raw S)))"
proof (cases "getAction aid (actionDocs S)")
  case None
  then show ?thesis using assms(1) by (simp add: put_action_def)
next
  case (Some action)
  let ?md = "encryptMetadata E (removeNullishValues E raw)"
  let ?domain = "domainParser E r (?md ''domain'')"
  let ?agents = "getAgents (regexTest E) aid (agentDocs S)"
  show ?thesis
  proof (cases "fns \<noteq> [] \<and> isActionDomainAllowed E (?md ''domain'') \<and> ?domain \<noteq> []")
    case False
    then show ?thesis using assms(1) Some by (auto simp: put_action_def Let_def)
  next
    case True
    note checks = this
    have sel: "\<forall>g\<in>set ?agents. refs_ok ids (actions g)"
      using assms(1) by (blast intro: invariant_member getAgents_member)
    have "invariant_A ids
            (put_cascade (actionDelimiter E) aid od ?domain fns ?agents (agentDocs S))" for od
    proof (cases "?agents = []")
      case True
      then show ?thesis using assms(1) by simp
    next
      case False
      have nc: "\<not> ref_collides ids aid (action_ref (actionDelimiter E) ?domain aid)"
        using assms(2) Some checks False by (simp add: no_collision_def)
      show ?thesis using assms(1) sel nc by (rule put_cascade_invariant)
    qed
    then show ?thesis
      using checks Some by (simp add: put_action_def Let_def split: prod.splits)
  qed
qed

lemma delete_invariant:
  assumes "invariant_A ids (agentDocs S)"
  shows "invariant_A ids (agentDocs (snd (delete_action E r aid S)))"
proof -
  have sel: "\<forall>g\<in>set (getAgents (regexTest E) aid (agentDocs S)). refs_ok ids (actions g)"
    using assms by (blast intro: invariant_member getAgents_member)
  have "invariant_A ids
          (delete_cascade aid d (getAgents (regexTest E) aid (agentDocs S)) (agentDocs S))" for d
    using assms sel by (rule delete_cascade_invariant)
  then show ?thesis
    using assms
    by (simp add: delete_action_def Let_def split: option.splits prod.splits)
qed

lemma apply_operation_invariant:
  "invariant_A ids (agentDocs S) \<Longrightarrow> [] \<notin> set ids \<Longrightarrow> no_collision ids E op S \<Longrightarrow>
   invariant_A ids (agentDocs (apply_operation E op S))"
  by (cases op) (simp_all add: bind_invariant unbind_invariant update_invariant delete_invariant)

section \<open>The claims\<close>

text \<open>
  C1. Invariant A under Bind, Unbind, Update and Delete. As the routes test containment
  with \<^verbatim>\<open>includes\<close>, the property that holds is this: let \<open>ids\<close> be action ids,
  none of them empty, and let every agent have at most one \<open>actions\<close> entry containing
  each of them. Then this still holds after any sequence of Bind, Unbind, Update and
  Delete operations, provided that no reference written on the way (domain, delimiter,
  action id) contains an id of \<open>ids\<close> other than the one it is written for. Unbind and
  Delete write no reference, so they need no proviso.
\<close>

theorem invariant_A_preserved:
  assumes "invariant_A ids (agentDocs S)" and "[] \<notin> set ids" and "collision_free ids E ops S"
  shows "invariant_A ids (agentDocs (run_operations E ops S))"
  using assms
proof (induction ops arbitrary: S)
  case Nil
  then show ?case by simp
next
  case (Cons op ops)
  then have "invariant_A ids (agentDocs (apply_operation E op S))"
    by (simp add: apply_operation_invariant)
  with Cons show ?case by simp
qed

text \<open>
  The theorem at two runs. On the stores with the actions \<open>ID\<close> and \<open>K7\<close>, both ids
  tracked: a Bind by a user who is not the author (404), then both actions bound to
  \<open>A1\<close>, \<open>ID\<close> moved to the domain \<open>b.io\<close>, \<open>K7\<close> unbound and deleted; the agent is left
  with the one reference of \<open>ID\<close>. On the stores of the colliding ids \<open>xyz\<close> and \<open>n_x\<close>:
  a Bind that answers 404 and an Update that answers 400 write no reference, so the
  proviso holds although the reference of \<open>xyz\<close> would contain \<open>n_x\<close>.
\<close>

theorem invariant_A_preserved_witness:
  "invariant_A [''ID'', ''K7'']
     (agentDocs
        (run_operations example_ext
           [Bind other_req ''A1'' ''ID'',
            Bind owner_req ''A1'' ''ID'',
            Bind owner_req ''A1'' ''K7'',
            Update owner_req ''ID'' [lookup_tool] [''domain'' \<mapsto> ''b.io''],
            Unbind owner_req ''A1'' ''K7'',
            Delete owner_req ''K7'']
           two_action_stores))
   \<and> map actions
         (agentDocs
            (run_operations example_ext
               [Bind other_req ''A1'' ''ID'',
                Bind owner_req ''A1'' ''ID'',
                Bind owner_req ''A1'' ''K7'',
                Update owner_req ''ID'' [lookup_tool] [''domain'' \<mapsto> ''b.io''],
                Unbind owner_req ''A1'' ''K7'',
                Delete owner_req ''K7'']
               two_action_stores))
       = [[''b---io_action_ID'']]
   \<and> invariant_A [''xyz'', ''n_x'']
         (agentDocs
            (run_operations example_ext
               [Bind other_req ''A1'' ''xyz'',
                Update owner_req ''xyz'' [] [''domain'' \<mapsto> ''d'']]
               collision_stores))"
proof -
  have run1: "invariant_A [''ID'', ''K7'']
     (agentDocs
        (run_operations example_ext
           [Bind other_req ''A1'' ''ID'',
            Bind owner_req ''A1'' ''ID'',
            Bind owner_req ''A1'' ''K7'',
            Update owner_req ''ID'' [lookup_tool] [''domain'' \<mapsto> ''b.io''],
            Unbind owner_req ''A1'' ''K7'',
            Delete owner_req ''K7'']
           two_action_stores))"
    by (rule invariant_A_preserved)
      (simp_all add: example_defs route_defs invariant_A_def refs_ok_def at_most_one_ref_def
        refs_to_def no_collision_def ref_collides_def)
  have left: "map actions
         (agentDocs
            (run_operations example_ext
               [Bind other_req ''A1'' ''ID'',
                Bind owner_req ''A1'' ''ID'',
                Bind owner_req ''A1'' ''K7'',
                Update owner_req ''ID'' [lookup_tool] [''domain'' \<mapsto> ''b.io''],
                Unbind owner_req ''A1'' ''K7'',
                Delete owner_req ''K7'']
               two_action_stores))
       = [[''b---io_action_ID'']]"
    by (simp add: example_defs route_defs)
  have run2: "invariant_A [''xyz'', ''n_x'']
         (agentDocs
            (run_operations example_ext
               [Bind other_req ''A1'' ''xyz'',
                Update owner_req ''xyz'' [] [''domain'' \<mapsto> ''d'']]
               collision_stores))"
    by (rule invariant_A_preserved)
      (simp_all add: example_defs route_defs invariant_A_def refs_ok_def at_most_one_ref_def
        refs_to_def no_collision_def ref_collides_def)
  from run1 left run2 show ?thesis by blast
qed

text \<open>
  Without the proviso the claim fails. The agent holds one reference, for \<open>n_x\<close>; binding
  \<open>xyz\<close> under the domain \<open>d\<close> appends \<open>d_action_xyz\<close>, which contains \<open>n_x\<close> across the
  end of the delimiter: two entries now contain the action id \<open>n_x\<close>.
\<close>

theorem invariant_A_collision:
  "invariant_A [''xyz'', ''n_x''] (agentDocs collision_stores)
   \<and> map actions (agentDocs (apply_operation example_ext (Bind owner_req ''A1'' ''xyz'') collision_stores))
       = [[''d_action_n_x'', ''d_action_xyz'']]
   \<and> refs_to ''n_x'' [''d_action_n_x'', ''d_action_xyz''] = [''d_action_n_x'', ''d_action_xyz'']
   \<and> \<not> invariant_A [''xyz'', ''n_x'']
         (agentDocs (apply_operation example_ext (Bind owner_req ''A1'' ''xyz'') collision_stores))"
  by (simp add: example_defs route_defs invariant_A_def refs_ok_def at_most_one_ref_def
      refs_to_def)

text \<open>
  C2. Bind is idempotent: when a Bind of a non-empty action id succeeds and leaves the
  stores \<open>S1\<close>, a second Bind with the same request, agent id and action id succeeds and
  leaves \<open>S1\<close> as it is. The second call finds the entry and writes nothing, so the
  agent's \<open>actions\<close> and \<open>tools\<close> are those of a single Bind.
\<close>

theorem bind_twice:
  assumes ok: "post_agent_action E r agent aid S = (Message 200 ''Action added successfully'', S1)"
    and aid: "aid \<noteq> []"
  shows "post_agent_action E r agent aid S1 = (Message 200 ''Action added successfully'', S1)"
proof -
  let ?q = "agentQuery_of r agent"
  from ok obtain ag where ag: "getAgent ?q (agentDocs S) = Some ag"
    by (auto simp: post_agent_action_def Let_def split: option.splits)
  from ok ag obtain action where act: "getAction aid (actionDocs S) = Some action"
    by (auto simp: post_agent_action_def Let_def split: option.splits)
  let ?domain = "domainParser E r (metadata action ''domain'')"
  show ?thesis
  proof (cases "not_exists_yet aid (actions ag)")
    case False
    with ok ag act have "S1 = S" by (simp add: post_agent_action_def Let_def)
    with ok show ?thesis by simp
  next
    case True
    let ?acts = "actions ag @ [action_ref (actionDelimiter E) ?domain aid]"
    let ?tls = "filter (bind_keep_tool aid ?domain) (tools ag)
                  @ map (\<lambda>f. tool_ref (actionDelimiter E) f ?domain) (action_functions action)"
    from True ok ag act
    have S1: "S1 = S\<lparr>agentDocs := updateAgent ?q ?acts ?tls (agentDocs S)\<rparr>"
      by (simp add: post_agent_action_def Let_def)
    have get: "getAgent ?q (agentDocs S1) = Some (ag\<lparr>actions := ?acts, tools := ?tls\<rparr>)"
      using ag by (simp add: S1 getAgent_updateAgent)
    have act1: "getAction aid (actionDocs S1) = Some action"
      using act by (simp add: S1)
    have "\<not> not_exists_yet aid ?acts"
      using aid by (rule not_exists_yet_after_push)
    with get act1 show ?thesis
      by (simp add: post_agent_action_def Let_def)
  qed
qed

theorem bind_twice_witness:
  "post_agent_action example_ext owner_req ''A1'' ''ID''
     (snd (post_agent_action example_ext owner_req ''A1'' ''ID'' example_stores))
   = (Message 200 ''Action added successfully'',
      snd (post_agent_action example_ext owner_req ''A1'' ''ID'' example_stores))"
  by (rule bind_twice [where S = example_stores])
    (simp_all add: example_defs route_defs)

text \<open>
  C3. After an update that changes the domain, an agent bound to the action should hold
  no tool reference of the old domain. The route filters the tools with
  \<^verbatim>\<open>action.metadata.domain\<close> as it is stored, while the references were built from
  the parsed domain: with a parser that rewrites the domain the old tool reference stays.
  Here the action \<open>ID\<close> of domain \<open>a.io\<close> is bound to \<open>A1\<close> and then updated to the
  domain \<open>b.io\<close>; the tool reference of the old domain, \<open>lookup_action_a---io\<close>, is
  still there.
\<close>

theorem update_keeps_stale_tool:
  "agentDocs
     (snd (put_action example_ext owner_req ''ID'' [lookup_tool] [''domain'' \<mapsto> ''b.io'']
        (snd (post_agent_action example_ext owner_req ''A1'' ''ID'' example_stores))))
   = [\<lparr>ident = ''A1'', author = ''u1'',
       actions = [''b---io_action_ID''],
       tools = [''lookup_action_a---io'', ''lookup_action_b---io'']\<rparr>]"
  by (simp add: example_defs route_defs)

text \<open>
  C4. The round trip of an action reference. Encoding is the concatenation
  \<open>domain @ delimiter @ id\<close> and never fails. For a non-empty delimiter, splitting the
  encoded reference gives back exactly the domain and the id when the id is free of the
  delimiter and no occurrence of the delimiter starts inside the domain, that is, the
  delimiter does not occur in the domain followed by the delimiter less its last
  character.
\<close>

theorem action_ref_round_trip:
  assumes "delim \<noteq> []" and "\<not> includes_js (d @ butlast delim) delim" and "\<not> includes_js a delim"
  shows "split_js delim (action_ref delim d a) = [d, a]"
  using assms by (simp add: split_js_def action_ref_def split_tokens_action_ref)

theorem action_ref_round_trip_witness:
  "split_js ''_action_'' (action_ref ''_action_'' ''a---io'' ''ID'') = [''a---io'', ''ID'']"
  by (rule action_ref_round_trip) simp_all

text \<open>
  The claim as stated fails twice. The domain \<open>x_action\<close> and the id \<open>id\<close> are free of
  the delimiter \<open>_action_\<close>, yet the encoded reference splits into \<open>x\<close> and \<open>action_id\<close>;
  and encoding a domain that contains the delimiter returns a reference.
\<close>

theorem action_ref_round_trip_fails:
  "\<not> includes_js ''x_action'' ''_action_''
   \<and> \<not> includes_js ''id'' ''_action_''
   \<and> split_js ''_action_'' (action_ref ''_action_'' ''x_action'' ''id'') = [''x'', ''action_id'']
   \<and> first_token ''_action_'' (action_ref ''_action_'' ''x_action'' ''id'') = Some ''x''
   \<and> includes_js ''a_action_b'' ''_action_''
   \<and> action_ref ''_action_'' ''a_action_b'' ''id'' = ''a_action_b_action_id''"
  by (simp add: split_js_def first_token_def action_ref_def)

text \<open>
  C5. The metadata that the create and update routes return contains none of the fields
  \<open>api_key\<close>, \<open>oauth_client_id\<close> and \<open>oauth_client_secret\<close>, whatever the request's
  metadata. The routes sanitize what \<open>encryptMetadata\<close> made of
  \<^verbatim>\<open>removeNullishValues(_metadata, true)\<close>; the call with \<^verbatim>\<open>true\<close> drops the empty
  strings, so the processed metadata holds no secret field with the empty string, which
  is the one value the loop would leave in place. Both functions are parameters here,
  and the theorem takes that property of their result as its hypothesis.
\<close>

theorem returned_metadata_sanitized:
  assumes "post_action E r p nid fns raw S = (ActionJson a, S1)
           \<or> put_action E r aid fns raw S = (ActionJson a, S1)"
    and "f \<in> set sensitiveFields"
    and "encryptMetadata E (removeNullishValues E raw) f \<noteq> Some []"
  shows "metadata a f = None"
proof -
  from assms(1)
  have "metadata a = strip_sensitive (encryptMetadata E (removeNullishValues E raw))"
    using post_action_json put_action_json by blast
  then show ?thesis
    using assms(2,3) by (simp add: strip_sensitive_removes)
qed

text \<open>
  The theorem at a create request whose metadata holds an empty \<open>api_key\<close> and a
  \<open>oauth_client_secret\<close>: the first is dropped before the action is stored, the second
  is deleted by the loop, and the domain is returned.
\<close>

theorem returned_metadata_sanitized_witness:
  "(case fst (post_action example_ext owner_req None ''N1'' [lookup_tool]
               [''domain'' \<mapsto> ''a.io'', ''api_key'' \<mapsto> [], ''oauth_client_secret'' \<mapsto> ''s'']
               example_stores) of
      ActionJson a \<Rightarrow>
        metadata a ''api_key'' = None \<and> metadata a ''oauth_client_secret'' = None
        \<and> metadata a ''domain'' = Some ''a.io''
    | _ \<Rightarrow> False)"
proof -
  obtain a S1 where ok:
    "post_action example_ext owner_req None ''N1'' [lookup_tool]
       [''domain'' \<mapsto> ''a.io'', ''api_key'' \<mapsto> [], ''oauth_client_secret'' \<mapsto> ''s'']
       example_stores = (ActionJson a, S1)"
    by (simp add: example_defs route_defs)
  have key: "metadata a ''api_key'' = None"
    by (rule returned_metadata_sanitized [where f = "''api_key''"], rule disjI1, rule ok)
      (simp_all add: sensitiveFields_def example_defs)
  have secret: "metadata a ''oauth_client_secret'' = None"
    by (rule returned_metadata_sanitized [where f = "''oauth_client_secret''"], rule disjI1, rule ok)
      (simp_all add: sensitiveFields_def example_defs)
  have "metadata a ''domain'' = Some ''a.io''"
    using post_action_json [OF ok]
    by (simp add: strip_sensitive_other sensitiveFields_def example_defs)
  with ok key secret show ?thesis by simp
qed

text \<open>
  C6. Unbind without a matching reference: when the lookup finds the agent and no entry
  of its \<open>actions\<close> contains the action id, the route answers 400 \<open>No domain provided\<close>
  and the stores are unchanged.
\<close>

theorem unbind_without_match:
  assumes "getAgent (agentQuery_of r agent) (agentDocs S) = Some ag"
    and "\<not> list_ex (\<lambda>a. includes_js a aid) (actions ag)"
  shows "delete_agent_action E r agent aid S = (Message 400 ''No domain provided'', S)"
  using assms by (simp add: delete_agent_action_def Let_def unbind_scan_no_match)

theorem unbind_without_match_witness:
  "delete_agent_action example_ext owner_req ''A1'' ''ID'' example_stores
   = (Message 400 ''No domain provided'', example_stores)"
  by (rule unbind_without_match [where ag = fresh_agent])
    (simp_all add: example_defs getAgent_def agentQuery_of_def isAdmin_def agent_matches_def)

text \<open>
  C7. Deleting an action that does not exist should answer NotFound. The route does not
  test what \<open>deleteAction\<close> returns: for the unknown id \<open>nope\<close> it answers status 500
  with \<open>Trouble deleting the Agent Action\<close>. The stores are unchanged.
\<close>

theorem delete_absent_action_answers_500:
  "delete_action example_ext owner_req ''nope'' example_stores
   = (Message 500 ''Trouble deleting the Agent Action'', example_stores)"
  by (rule delete_action_of_absent) (simp add: example_defs getAction_def)

text \<open>
  C8. The tools after a successful Unbind. The domain \<open>d\<close> taken from the removed
  reference is the first token of the last \<open>actions\<close> entry that contains the action id,
  and it is not empty. The agent is left with the \<open>actions\<close> entries that do not contain
  the action id and with the \<open>tools\<close> entries that are empty or do not contain \<open>d\<close>:
  exactly the non-empty tools that contain \<open>d\<close> as a substring are removed.
\<close>

theorem unbind_tools:
  assumes ok: "delete_agent_action E r agent aid S
                 = (Message 200 ''Action deleted for agent successfully'', S1)"
    and ag: "getAgent (agentQuery_of r agent) (agentDocs S) = Some ag"
  shows "\<exists>d. d \<noteq> []
           \<and> filter (\<lambda>a. includes_js a aid) (actions ag) \<noteq> []
           \<and> first_token (actionDelimiter E) (last (filter (\<lambda>a. includes_js a aid) (actions ag)))
               = Some d
           \<and> getAgent (agentQuery_of r agent) (agentDocs S1)
               = Some (ag\<lparr>actions := filter (\<lambda>a. \<not> includes_js a aid) (actions ag),
                          tools := filter (\<lambda>tool. \<not> (tool \<noteq> [] \<and> includes_js tool d)) (tools ag)\<rparr>)"
proof -
  let ?q = "agentQuery_of r agent"
  let ?hits = "filter (\<lambda>a. includes_js a aid) (actions ag)"
  obtain dom kept where scan: "unbind_scan (actionDelimiter E) aid (Some []) (actions ag) = (dom, kept)"
    by (cases "unbind_scan (actionDelimiter E) aid (Some []) (actions ag)")
  have kept: "kept = filter (\<lambda>a. \<not> includes_js a aid) (actions ag)"
    using unbind_scan_kept [of "actionDelimiter E" aid "Some []" "actions ag"] scan by simp
  from ok ag scan obtain d where d: "dom = Some d" "d \<noteq> []"
    and S1: "S1 = S\<lparr>agentDocs := updateAgent ?q kept (filter (unbind_keep_tool d) (tools ag)) (agentDocs S)\<rparr>"
    by (auto simp: delete_agent_action_def Let_def split: option.splits if_splits)
  have dom: "dom = (if ?hits = [] then Some [] else first_token (actionDelimiter E) (last ?hits))"
    using unbind_scan_domain [of "actionDelimiter E" aid "Some []" "actions ag"] scan by simp
  from d dom have hits: "?hits \<noteq> []" by (auto split: if_splits)
  with d dom have tok: "first_token (actionDelimiter E) (last ?hits) = Some d" by simp
  have keep: "unbind_keep_tool d = (\<lambda>tool. \<not> (tool \<noteq> [] \<and> includes_js tool d))"
    by (rule ext) (simp add: unbind_keep_tool_def)
  have "getAgent ?q (agentDocs S1)
          = Some (ag\<lparr>actions := kept, tools := filter (unbind_keep_tool d) (tools ag)\<rparr>)"
    using ag by (simp add: S1 getAgent_updateAgent)
  with d hits tok kept keep show ?thesis by auto
qed

theorem unbind_tools_witness:
  "\<exists>d. d \<noteq> []
      \<and> filter (\<lambda>a. includes_js a ''ID2'') (actions two_domain_agent) \<noteq> []
      \<and> first_token (actionDelimiter example_ext)
          (last (filter (\<lambda>a. includes_js a ''ID2'') (actions two_domain_agent))) = Some d
      \<and> getAgent (agentQuery_of owner_req ''A1'')
          (agentDocs (snd (delete_agent_action example_ext owner_req ''A1'' ''ID2'' two_domain_stores)))
        = Some (two_domain_agent
                 \<lparr>actions := filter (\<lambda>a. \<not> includes_js a ''ID2'') (actions two_domain_agent),
                  tools := filter (\<lambda>tool. \<not> (tool \<noteq> [] \<and> includes_js tool d))
                             (tools two_domain_agent)\<rparr>)"
  by (rule unbind_tools [where S = two_domain_stores])
    (simp_all add: example_defs route_defs)

text \<open>
  The claim as stated fails for a tool whose domain merely contains the extracted one.
  Unbinding \<open>ID1\<close> extracts the domain \<open>api\<close>; the tool \<open>search_action_myapi\<close> has the
  domain component \<open>myapi\<close>, a different domain, and is removed all the same.
\<close>

theorem unbind_removes_other_domain:
  "delete_agent_action example_ext owner_req ''A1'' ''ID1'' two_domain_stores
     = (Message 200 ''Action deleted for agent successfully'',
        \<lparr>actionDocs = [],
         agentDocs = [\<lparr>ident = ''A1'', author = ''u1'',
                       actions = [''myapi_action_ID2''], tools = []\<rparr>]\<rparr>)
   \<and> first_token ''_action_'' ''api_action_ID1'' = Some ''api''
   \<and> tool_domain ''_action_'' ''search_action_myapi'' = Some ''myapi''
   \<and> tools two_domain_agent = [''lookup_action_api'', ''search_action_myapi'']"
  by (simp add: example_defs route_defs tool_domain_def)

text \<open>
  C9. The agent lookup is scoped by the author unless the request comes from an admin.
  A request that is not an admin's, for an agent id under which no agent of that author
  is stored, gets 404 from Bind and from Unbind, and the stores are unchanged. For an
  admin the lookup is by id alone, whoever the author is: a Bind of an existing action
  that is not yet referenced writes that agent, and an Unbind whose scan of that agent's
  \<open>actions\<close> yields a non-empty domain writes it too.
\<close>

theorem scoped_lookup:
  "(user_role r \<noteq> ADMIN \<and> list_all (\<lambda>g. ident g \<noteq> agent \<or> author g \<noteq> user_id r) (agentDocs S)
      \<longrightarrow> post_agent_action E r agent aid S = (Message 404 ''Agent not found for adding action'', S)
        \<and> delete_agent_action E r agent aid S
            = (Message 404 ''Agent not found for deleting action'', S))
   \<and> (user_role r = ADMIN
      \<longrightarrow> getAgent (agentQuery_of r agent) (agentDocs S) = find (\<lambda>g. ident g = agent) (agentDocs S))
   \<and> (user_role r = ADMIN \<and> find (\<lambda>g. ident g = agent) (agentDocs S) = Some ag
        \<and> getAction aid (actionDocs S) = Some action \<and> not_exists_yet aid (actions ag)
      \<longrightarrow> post_agent_action E r agent aid S
          = (Message 200 ''Action added successfully'',
             S\<lparr>agentDocs :=
                 updateAgent \<lparr>q_id = agent, q_author = None\<rparr>
                   (actions ag
                      @ [action_ref (actionDelimiter E) (domainParser E r (metadata action ''domain'')) aid])
                   (filter (bind_keep_tool aid (domainParser E r (metadata action ''domain''))) (tools ag)
                      @ map (\<lambda>f. tool_ref (actionDelimiter E) f (domainParser E r (metadata action ''domain'')))
                          (action_functions action))
                   (agentDocs S)\<rparr>))
   \<and> (user_role r = ADMIN \<and> find (\<lambda>g. ident g = agent) (agentDocs S) = Some ag
        \<and> unbind_scan (actionDelimiter E) aid (Some []) (actions ag) = (Some d, kept) \<and> d \<noteq> []
      \<longrightarrow> delete_agent_action E r agent aid S
          = (Message 200 ''Action deleted for agent successfully'',
             S\<lparr>agentDocs :=
                 updateAgent \<lparr>q_id = agent, q_author = None\<rparr> kept
                   (filter (unbind_keep_tool d) (tools ag)) (agentDocs S)\<rparr>))"
proof (intro conjI impI)
  assume a: "user_role r \<noteq> ADMIN \<and> list_all (\<lambda>g. ident g \<noteq> agent \<or> author g \<noteq> user_id r) (agentDocs S)"
  then have "\<forall>g\<in>set (agentDocs S). ident g = agent \<longrightarrow> author g \<noteq> user_id r"
    by (auto simp: list_all_iff)
  then have none: "getAgent (agentQuery_of r agent) (agentDocs S) = None"
    using a by (simp add: getAgent_def agentQuery_of_def isAdmin_def find_agent_None)
  show "post_agent_action E r agent aid S = (Message 404 ''Agent not found for adding action'', S)"
    using none by (simp add: post_agent_action_def Let_def)
  show "delete_agent_action E r agent aid S = (Message 404 ''Agent not found for deleting action'', S)"
    using none by (simp add: delete_agent_action_def Let_def)
next
  assume "user_role r = ADMIN"
  then show "getAgent (agentQuery_of r agent) (agentDocs S) = find (\<lambda>g. ident g = agent) (agentDocs S)"
    by (simp add: getAgent_def agentQuery_of_def isAdmin_def agent_matches_id_only)
next
  assume a: "user_role r = ADMIN \<and> find (\<lambda>g. ident g = agent) (agentDocs S) = Some ag
        \<and> getAction aid (actionDocs S) = Some action \<and> not_exists_yet aid (actions ag)"
  then have q: "agentQuery_of r agent = \<lparr>q_id = agent, q_author = None\<rparr>"
    by (simp add: agentQuery_of_def isAdmin_def)
  have "getAgent \<lparr>q_id = agent, q_author = None\<rparr> (agentDocs S) = Some ag"
    using a by (simp add: getAgent_def agent_matches_id_only)
  then show "post_agent_action E r agent aid S
          = (Message 200 ''Action added successfully'',
             S\<lparr>agentDocs :=
                 updateAgent \<lparr>q_id = agent, q_author = None\<rparr>
                   (actions ag
                      @ [action_ref (actionDelimiter E) (domainParser E r (metadata action ''domain'')) aid])
                   (filter (bind_keep_tool aid (domainParser E r (metadata action ''domain''))) (tools ag)
                      @ map (\<lambda>f. tool_ref (actionDelimiter E) f (domainParser E r (metadata action ''domain'')))
                          (action_functions action))
                   (agentDocs S)\<rparr>)"
    using a by (simp add: post_agent_action_def Let_def q)
next
  assume a: "user_role r = ADMIN \<and> find (\<lambda>g. ident g = agent) (agentDocs S) = Some ag
        \<and> unbind_scan (actionDelimiter E) aid (Some []) (actions ag) = (Some d, kept) \<and> d \<noteq> []"
  then have q: "agentQuery_of r agent = \<lparr>q_id = agent, q_author = None\<rparr>"
    by (simp add: agentQuery_of_def isAdmin_def)
  have "getAgent \<lparr>q_id = agent, q_author = None\<rparr> (agentDocs S) = Some ag"
    using a by (simp add: getAgent_def agent_matches_id_only)
  then show "delete_agent_action E r agent aid S
          = (Message 200 ''Action deleted for agent successfully'',
             S\<lparr>agentDocs :=
                 updateAgent \<lparr>q_id = agent, q_author = None\<rparr> kept
                   (filter (unbind_keep_tool d) (tools ag)) (agentDocs S)\<rparr>)"
    using a by (simp add: delete_agent_action_def Let_def q)
qed

text \<open>
  The theorem on the example stores: the user \<open>u2\<close> is not the author of \<open>A1\<close> and gets
  404 twice; the admin binds the action to the same agent, and unbinds \<open>ID2\<close> from the
  agent of \<open>u1\<close> that is bound to two actions.
\<close>

theorem scoped_lookup_witness:
  "post_agent_action example_ext other_req ''A1'' ''ID'' example_stores
     = (Message 404 ''Agent not found for adding action'', example_stores)
   \<and> delete_agent_action example_ext other_req ''A1'' ''ID'' example_stores
     = (Message 404 ''Agent not found for deleting action'', example_stores)
   \<and> getAgent (agentQuery_of admin_req ''A1'') (agentDocs example_stores) = Some fresh_agent
   \<and> map actions (agentDocs (snd (post_agent_action example_ext admin_req ''A1'' ''ID'' example_stores)))
     = [[''a---io_action_ID'']]
   \<and> delete_agent_action example_ext admin_req ''A1'' ''ID2'' two_domain_stores
     = (Message 200 ''Action deleted for agent successfully'',
        \<lparr>actionDocs = [],
         agentDocs = [\<lparr>ident = ''A1'', author = ''u1'',
                       actions = [''api_action_ID1''], tools = [''lookup_action_api'']\<rparr>]\<rparr>)"
proof -
  have other: "user_role other_req \<noteq> ADMIN
      \<and> list_all (\<lambda>g. ident g \<noteq> ''A1'' \<or> author g \<noteq> user_id other_req) (agentDocs example_stores)"
    by (simp add: example_defs)
  have admin: "user_role admin_req = ADMIN
      \<and> find (\<lambda>g. ident g = ''A1'') (agentDocs example_stores) = Some fresh_agent
      \<and> getAction ''ID'' (actionDocs example_stores) = Some lookup_action
      \<and> not_exists_yet ''ID'' (actions fresh_agent)"
    by (simp add: example_defs getAction_def not_exists_yet_def)
  have admin2: "user_role admin_req = ADMIN
      \<and> find (\<lambda>g. ident g = ''A1'') (agentDocs two_domain_stores) = Some two_domain_agent
      \<and> unbind_scan (actionDelimiter example_ext) ''ID2'' (Some []) (actions two_domain_agent)
          = (Some ''myapi'', [''api_action_ID1''])
      \<and> ''myapi'' \<noteq> []"
    by (simp add: example_defs first_token_def split_js_def)
  note thm1 = scoped_lookup [where r = other_req and agent = "''A1''" and S = example_stores
      and E = example_ext and aid = "''ID''" and ag = fresh_agent and action = lookup_action]
  note thm2 = scoped_lookup [where r = admin_req and agent = "''A1''" and S = example_stores
      and E = example_ext and aid = "''ID''" and ag = fresh_agent and action = lookup_action]
  note thm3 = scoped_lookup [where r = admin_req and agent = "''A1''" and S = two_domain_stores
      and E = example_ext and aid = "''ID2''" and ag = two_domain_agent
      and d = "''myapi''" and kept = "[''api_action_ID1'']"]
  from thm1 other
  have c1: "post_agent_action example_ext other_req ''A1'' ''ID'' example_stores
              = (Message 404 ''Agent not found for adding action'', example_stores)
            \<and> delete_agent_action example_ext other_req ''A1'' ''ID'' example_stores
              = (Message 404 ''Agent not found for deleting action'', example_stores)"
    by blast
  from thm2 admin
  have c2: "getAgent (agentQuery_of admin_req ''A1'') (agentDocs example_stores)
              = find (\<lambda>g. ident g = ''A1'') (agentDocs example_stores)"
    by blast
  from thm2 admin
  have c3: "post_agent_action example_ext admin_req ''A1'' ''ID'' example_stores
          = (Message 200 ''Action added successfully'',
             example_stores\<lparr>agentDocs :=
                 updateAgent \<lparr>q_id = ''A1'', q_author = None\<rparr>
                   (actions fresh_agent
                      @ [action_ref (actionDelimiter example_ext)
                           (domainParser example_ext admin_req (metadata lookup_action ''domain'')) ''ID''])
                   (filter (bind_keep_tool ''ID''
                              (domainParser example_ext admin_req (metadata lookup_action ''domain'')))
                        (tools fresh_agent)
                      @ map (\<lambda>f. tool_ref (actionDelimiter example_ext) f
                                  (domainParser example_ext admin_req (metadata lookup_action ''domain'')))
                          (action_functions lookup_action))
                   (agentDocs example_stores)\<rparr>)"
    by blast
  have c4: "map actions (agentDocs (snd (post_agent_action example_ext admin_req ''A1'' ''ID'' example_stores)))
              = [[''a---io_action_ID'']]"
    unfolding c3 by (simp add: example_defs agent_matches_def action_ref_def)
  from thm3 admin2
  have c5: "delete_agent_action example_ext admin_req ''A1'' ''ID2'' two_domain_stores
          = (Message 200 ''Action deleted for agent successfully'',
             two_domain_stores\<lparr>agentDocs :=
                 updateAgent \<lparr>q_id = ''A1'', q_author = None\<rparr> [''api_action_ID1'']
                   (filter (unbind_keep_tool ''myapi'') (tools two_domain_agent))
                   (agentDocs two_domain_stores)\<rparr>)"
    by blast
  have c6: "delete_agent_action example_ext admin_req ''A1'' ''ID2'' two_domain_stores
     = (Message 200 ''Action deleted for agent successfully'',
        \<lparr>actionDocs = [],
         agentDocs = [\<lparr>ident = ''A1'', author = ''u1'',
                       actions = [''api_action_ID1''], tools = [''lookup_action_api'']\<rparr>]\<rparr>)"
    unfolding c5 by (simp add: example_defs agent_matches_def unbind_keep_tool_def)
  from c1 c2 admin c4 c6 show ?thesis by simp
qed




end
